theory Spec2Isabelle
  imports Complex_Main
begin

section \<open>Values and exceptions of the script\<close>

text \<open>
  The script \<^verbatim>\<open>scripts/download_cef.py\<close> works on what \<^verbatim>\<open>json.load\<close> returns:
  dynamically typed values. They are modelled by the datatype \<open>json\<close>; a dictionary is an
  association list read with \<open>map_of\<close>. Text is the UTF-8 byte string of the Python
  \<^verbatim>\<open>str\<close> (\<open>char list\<close>): equality, splitting at a dot and the search for an ASCII
  substring are the same on the bytes as on the characters.
  Every exception the script can raise is a constructor of \<open>error\<close>, and a function that
  can raise returns \<open>error + 'a\<close> with \<open>Inl\<close> for the exception.
\<close>

datatype json =
    JNull
  | JBool bool
  | JInt int
  | JFloat real
  | JStr string
  | JArr "json list"
  | JObj "(string \<times> json) list"

datatype error =
    RuntimeError string
  | AttributeError
  | TypeError
  | ValueError
  | KeyError string
  | IndexError
  | HostError string

definition bind :: "error + 'a \<Rightarrow> ('a \<Rightarrow> error + 'b) \<Rightarrow> error + 'b" where
  "bind m f = (case m of Inl e \<Rightarrow> Inl e | Inr x \<Rightarrow> f x)"

text \<open>\<^verbatim>\<open>d.get(k, default)\<close>: only a dictionary has the method.\<close>

fun py_get :: "json \<Rightarrow> string \<Rightarrow> json \<Rightarrow> error + json" where
  "py_get (JObj kvs) k d = Inr (case map_of kvs k of Some x \<Rightarrow> x | None \<Rightarrow> d)"
| "py_get _ k d = Inl AttributeError"

text \<open>\<^verbatim>\<open>d[k]\<close> with a string key: \<^verbatim>\<open>KeyError\<close> on a dictionary without the key,
  \<^verbatim>\<open>TypeError\<close> on every other value.\<close>

fun py_item :: "json \<Rightarrow> string \<Rightarrow> error + json" where
  "py_item (JObj kvs) k = (case map_of kvs k of Some x \<Rightarrow> Inr x | None \<Rightarrow> Inl (KeyError k))"
| "py_item _ k = Inl TypeError"

text \<open>The characters of a text: a byte that continues a UTF-8 sequence (\<open>0x80\<close> to
  \<open>0xBF\<close>) belongs to the character before it.\<close>

definition is_continuation :: "char \<Rightarrow> bool" where
  "is_continuation c = (128 \<le> (of_char c :: nat) \<and> (of_char c :: nat) < 192)"

function characters :: "string \<Rightarrow> string list" where
  "characters [] = []"
| "characters (c # cs) =
     (c # takeWhile is_continuation cs) # characters (dropWhile is_continuation cs)"
  by pat_completeness auto
termination
  by (relation "measure length") (simp_all add: length_dropWhile_le less_Suc_eq_le)

text \<open>\<^verbatim>\<open>for x in v\<close>: a list yields its elements, a dictionary its keys, a string its
  characters; nothing else is iterable.\<close>

fun py_iter :: "json \<Rightarrow> error + json list" where
  "py_iter (JArr xs) = Inr xs"
| "py_iter (JObj kvs) = Inr (map (\<lambda>kv. JStr (fst kv)) kvs)"
| "py_iter (JStr s) = Inr (map JStr (characters s))"
| "py_iter _ = Inl TypeError"

section \<open>The host\<close>

text \<open>
  Everything outside the script is the host: the interpreter, the platform module, the
  network, the file system, and the flavour of \<^verbatim>\<open>pathlib\<close>. A path is the text of the
  path; joining (\<^verbatim>\<open>p / s\<close>) and the final component (\<^verbatim>\<open>p.name\<close>) are the host's. Each
  field of the record is the answer the run gets at the one place it asks. What the run
  does to the outside is the list of its events, in order; an event is written when the
  call is made, whatever its outcome.

  Two fields are the interpreter's: \<open>py_str\<close> is \<^verbatim>\<open>str()\<close> of a value that is not a
  string, and \<open>int_unicode\<close> is \<^verbatim>\<open>int()\<close> of a text with a character outside ASCII,
  which depends on the tables of decimal digits and of white space of the interpreter's
  Unicode database.
\<close>

type_synonym path = string

record host =
  host_system :: string
  host_machine :: string
  py_str :: "json \<Rightarrow> string"
  int_unicode :: "string \<Rightarrow> error + int"
  path_join :: "path \<Rightarrow> string \<Rightarrow> path"
  path_name :: "path \<Rightarrow> string"
  urlopen_json :: "string \<Rightarrow> error + json"
  mkdir :: "path \<Rightarrow> error + unit"
  path_exists :: "path \<Rightarrow> bool"
  urlretrieve :: "string \<Rightarrow> path \<Rightarrow> (int \<times> int \<times> int) list \<times> (error + unit)"
  tar_extractall :: "path \<Rightarrow> path \<Rightarrow> error + unit"
  zip_extractall :: "path \<Rightarrow> path \<Rightarrow> error + unit"
  glob :: "path \<Rightarrow> string \<Rightarrow> path list"
  write_text :: "path \<Rightarrow> string \<Rightarrow> error + unit"

section \<open>Platform detection\<close>

definition CEF_INDEX_URL :: string where
  "CEF_INDEX_URL = ''https://cef-builds.spotifycdn.com/index.json''"

definition CEF_DOWNLOAD_BASE :: string where
  "CEF_DOWNLOAD_BASE = ''https://cef-builds.spotifycdn.com''"

definition PLATFORM_MAP :: "(string \<times> string \<times> string) list" where
  "PLATFORM_MAP =
     [(''linux64'', ''Linux'', ''x86_64''),
      (''linuxarm64'', ''Linux'', ''aarch64''),
      (''macosx64'', ''Darwin'', ''x86_64''),
      (''macosarm64'', ''Darwin'', ''arm64''),
      (''windows64'', ''Windows'', ''AMD64''),
      (''windowsarm64'', ''Windows'', ''ARM64'')]"

text \<open>The loop of \<^verbatim>\<open>get_platform_id\<close> over the items of the table, in their order.\<close>

fun platform_loop :: "(string \<times> string \<times> string) list \<Rightarrow> string \<Rightarrow> string \<Rightarrow> error + string" where
  "platform_loop [] system machine =
     Inl (RuntimeError (''Unsupported: '' @ system @ '' '' @ machine))"
| "platform_loop ((plat_id, s, m) # rest) system machine =
     (if s = system \<and> m = machine then Inr plat_id else platform_loop rest system machine)"

text \<open>\<^verbatim>\<open>get_platform_id\<close>; its arguments are the values of \<^verbatim>\<open>platform.system()\<close> and
  \<^verbatim>\<open>platform.machine()\<close>.\<close>

definition get_platform_id :: "string \<Rightarrow> string \<Rightarrow> error + string" where
  "get_platform_id system machine = platform_loop PLATFORM_MAP system machine"

section \<open>Version selection\<close>

text \<open>
  \<^verbatim>\<open>int(s)\<close> on an ASCII string, base 10: surrounding white space is dropped (tab, line
  feed, vertical tab, form feed, carriage return and space; the separators \<open>0x1C\<close> to
  \<open>0x1F\<close> are not white space here), one sign is allowed, the digits may be grouped by
  single underscores, and more than 4300 digits are refused (the interpreter's default
  limit). Anything else raises \<^verbatim>\<open>ValueError\<close>.
\<close>

definition is_space :: "char \<Rightarrow> bool" where
  "is_space c = (c \<in> set [CHR 0x09, CHR 0x0A, CHR 0x0B, CHR 0x0C, CHR 0x0D, CHR 0x20])"

definition strip :: "string \<Rightarrow> string" where
  "strip s = rev (dropWhile is_space (rev (dropWhile is_space s)))"

definition is_digit :: "char \<Rightarrow> bool" where
  "is_digit c = (c \<in> set ''0123456789'')"

definition digit_val :: "char \<Rightarrow> int" where
  "digit_val c = int (of_char c) - 48"

text \<open>The digits of \<^verbatim>\<open>digit (["_"] digit)*\<close>, without the underscores.\<close>

fun digits_of :: "string \<Rightarrow> string option" where
  "digits_of [] = None"
| "digits_of [c] = (if is_digit c then Some [c] else None)"
| "digits_of (c # d # r) =
     (if \<not> is_digit c then None
      else if d = CHR ''_'' then map_option ((#) c) (digits_of r)
      else map_option ((#) c) (digits_of (d # r)))"

definition int_ascii :: "string \<Rightarrow> error + int" where
  "int_ascii s =
     (case strip s of
        [] \<Rightarrow> Inl ValueError
      | c # r \<Rightarrow>
          (let neg = (c = CHR ''-'');
               body = (if c = CHR ''-'' \<or> c = CHR ''+'' then r else c # r)
           in case digits_of body of
                None \<Rightarrow> Inl ValueError
              | Some ds \<Rightarrow>
                  if length ds > 4300 then Inl ValueError
                  else let n = foldl (\<lambda>a x. 10 * a + digit_val x) 0 ds
                       in Inr (if neg then - n else n)))"

definition is_ascii :: "char \<Rightarrow> bool" where
  "is_ascii c = ((of_char c :: nat) < 128)"

text \<open>\<^verbatim>\<open>int(s)\<close> on any string: the interpreter answers for a text that is not ASCII.\<close>

definition py_int :: "host \<Rightarrow> string \<Rightarrow> error + int" where
  "py_int h s = (if list_all is_ascii s then int_ascii s else int_unicode h s)"

text \<open>\<^verbatim>\<open>s.split(sep)\<close> for a one-character separator: never the empty list.\<close>

fun split_on :: "char \<Rightarrow> string \<Rightarrow> string list" where
  "split_on sep [] = [[]]"
| "split_on sep (c # cs) =
     (if c = sep then [] # split_on sep cs
      else (case split_on sep cs of [] \<Rightarrow> [[c]] | p # ps \<Rightarrow> (c # p) # ps))"

text \<open>The sort key of line 49:
  \<^verbatim>\<open>int(v.get("chromium_version", "0").split(".")[0])\<close>.\<close>

definition version_key :: "host \<Rightarrow> json \<Rightarrow> error + int" where
  "version_key h v =
     bind (py_get v ''chromium_version'' (JStr ''0'')) (\<lambda>cv.
       case cv of
         JStr s \<Rightarrow> (case split_on CHR ''.'' s of [] \<Rightarrow> Inl IndexError | p # _ \<Rightarrow> py_int h p)
       | _ \<Rightarrow> Inl AttributeError)"

text \<open>The comprehension of line 46: the entries are visited in order and the first one
  without a \<^verbatim>\<open>get\<close> method raises.\<close>

fun stable_entries :: "json list \<Rightarrow> error + json list" where
  "stable_entries [] = Inr []"
| "stable_entries (v # vs) =
     bind (py_get v ''channel'' JNull) (\<lambda>c.
     bind (stable_entries vs) (\<lambda>rest.
       Inr (if c = JStr ''stable'' then v # rest else rest)))"

text \<open>\<^verbatim>\<open>list.sort(key=..., reverse=True)\<close> first computes the key of every element, in
  order (the first failure raises), then sorts by decreasing key; the sort is stable, also
  when reversed, so elements with equal keys keep their order.\<close>

fun map_err :: "('a \<Rightarrow> error + 'b) \<Rightarrow> 'a list \<Rightarrow> error + 'b list" where
  "map_err f [] = Inr []"
| "map_err f (x # xs) = bind (f x) (\<lambda>y. bind (map_err f xs) (\<lambda>ys. Inr (y # ys)))"

definition sort_reverse :: "(int \<times> 'a) list \<Rightarrow> (int \<times> 'a) list" where
  "sort_reverse kxs = sort_key (\<lambda>kx. - fst kx) kxs"

definition find_latest_stable :: "host \<Rightarrow> json \<Rightarrow> string \<Rightarrow> error + json" where
  "find_latest_stable h index platform_id =
     bind (py_get index platform_id (JObj [])) (\<lambda>plat.
     bind (py_get plat ''versions'' (JArr [])) (\<lambda>versions.
     bind (py_iter versions) (\<lambda>vs.
     bind (stable_entries vs) (\<lambda>stable.
       if stable = [] then Inl (RuntimeError (''No stable version for '' @ platform_id))
       else bind (map_err (version_key h) stable) (\<lambda>keys.
         case sort_reverse (zip keys stable) of
           [] \<Rightarrow> Inl IndexError
         | (k, v) # _ \<Rightarrow> Inr v)))))"

section \<open>File selection\<close>

text \<open>One loop of \<^verbatim>\<open>get_minimal_dist\<close>: the first entry whose \<^verbatim>\<open>type\<close> is the wanted
  kind, \<open>None\<close> when the loop runs to its end.\<close>

fun first_of_type :: "string \<Rightarrow> json list \<Rightarrow> error + json option" where
  "first_of_type kind [] = Inr None"
| "first_of_type kind (f # fs) =
     bind (py_get f ''type'' JNull) (\<lambda>t.
       if t = JStr kind then Inr (Some f) else first_of_type kind fs)"

definition get_minimal_dist :: "json \<Rightarrow> error + json" where
  "get_minimal_dist version_data =
     bind (py_get version_data ''files'' (JArr [])) (\<lambda>files.
     bind (py_iter files) (\<lambda>fs.
     bind (first_of_type ''minimal'' fs) (\<lambda>found.
       case found of
         Some f \<Rightarrow> Inr f
       | None \<Rightarrow>
           bind (py_get version_data ''files'' (JArr [])) (\<lambda>files'.
           bind (py_iter files') (\<lambda>fs'.
           bind (first_of_type ''standard'' fs') (\<lambda>found'.
             case found' of
               Some f \<Rightarrow> Inr f
             | None \<Rightarrow> Inl (RuntimeError ''No distribution found'')))))))"

section \<open>The effects of a run\<close>

datatype event =
    PrintFetching
  | UrlOpen string
  | PrintJson json
  | Mkdir path
  | PrintDownloading string
  | UrlRetrieve string path
  | PrintProgress int
  | PrintNewline
  | PrintCached path
  | PrintExtracting path
  | TarExtractAll path path
  | ZipExtractAll path path
  | PrintReady path
  | WriteText path string

type_synonym 'a io = "event list \<times> (error + 'a)"

definition io_of :: "error + 'a \<Rightarrow> 'a io" where
  "io_of r = ([], r)"

definition io_bind :: "'a io \<Rightarrow> ('a \<Rightarrow> 'b io) \<Rightarrow> 'b io" where
  "io_bind m f =
     (case m of
        (out, Inl e) \<Rightarrow> (out, Inl e)
      | (out, Inr x) \<Rightarrow> (case f x of (out', r) \<Rightarrow> (out @ out', r)))"

definition fetch_index :: "host \<Rightarrow> json io" where
  "fetch_index h = ([PrintFetching, UrlOpen CEF_INDEX_URL], urlopen_json h CEF_INDEX_URL)"

text \<open>The report hook of \<^verbatim>\<open>download_file\<close>; \<^verbatim>\<open>//\<close> is floor division, as \<open>div\<close> on
  \<open>int\<close> is.\<close>

definition progress :: "int \<Rightarrow> int \<Rightarrow> int \<Rightarrow> event list" where
  "progress block block_size total_size =
     (if total_size > 0 then [PrintProgress (min 100 (block * block_size * 100 div total_size))]
      else [])"

definition download_file :: "host \<Rightarrow> string \<Rightarrow> path \<Rightarrow> unit io" where
  "download_file h url dest =
     (case urlretrieve h url dest of
        (calls, r) \<Rightarrow>
          io_bind ([PrintDownloading url, UrlRetrieve url dest]
                     @ concat (map (\<lambda>(block, block_size, total_size).
                                    progress block block_size total_size) calls), r)
            (\<lambda>_. ([PrintNewline], Inr ())))"

section \<open>Extraction\<close>

definition starts_with :: "string \<Rightarrow> string \<Rightarrow> bool" where
  "starts_with p s = (take (length p) s = p)"

definition ends_with :: "string \<Rightarrow> string \<Rightarrow> bool" where
  "ends_with p s = starts_with (rev p) (rev s)"

text \<open>\<^verbatim>\<open>sub in s\<close> on strings.\<close>

fun contains :: "string \<Rightarrow> string \<Rightarrow> bool" where
  "contains sub [] = (sub = [])"
| "contains sub (c # cs) = (starts_with sub (c # cs) \<or> contains sub cs)"

text \<open>\<^verbatim>\<open>s.rfind(c)\<close>: the last index of the character, \<open>- 1\<close> when it does not occur.\<close>

definition rfind :: "char \<Rightarrow> string \<Rightarrow> int" where
  "rfind c s =
     (if c \<in> set s then int (length s) - 1 - int (length (takeWhile (\<lambda>x. x \<noteq> c) (rev s)))
      else - 1)"

text \<open>\<^verbatim>\<open>PurePath.suffix\<close>, computed from the final component as \<^verbatim>\<open>pathlib\<close> does: the
  text from the last dot on, when that dot is neither the first nor the last character.\<close>

definition name_suffix :: "string \<Rightarrow> string" where
  "name_suffix name =
     (let i = rfind CHR ''.'' name
      in if 0 < i \<and> i < int (length name) - 1 then drop (nat i) name else [])"

definition path_suffix :: "host \<Rightarrow> path \<Rightarrow> string" where
  "path_suffix h p = name_suffix (path_name h p)"

definition "extract" :: "host \<Rightarrow> path \<Rightarrow> path \<Rightarrow> unit io" where
  "extract h archive_path dest_dir =
     io_bind ([PrintExtracting dest_dir], Inr ()) (\<lambda>_.
       if path_suffix h archive_path = ''.bz2'' \<or> contains ''.tar'' (path_name h archive_path)
       then ([TarExtractAll archive_path dest_dir], tar_extractall h archive_path dest_dir)
       else ([ZipExtractAll archive_path dest_dir], zip_extractall h archive_path dest_dir))"

section \<open>The program\<close>

record args =
  platform :: "string option"
  output_dir :: path
  version :: "string option"
  info_only :: bool

text \<open>What lines 95 to 102 of \<^verbatim>\<open>main\<close> resolve.\<close>

record selection =
  sel_platform_id :: string
  sel_version_data :: json
  sel_cef_version :: json
  sel_file_info :: json
  sel_filename :: json
  sel_sha1 :: json
  sel_url :: string

text \<open>A value inside an f-string: a string is itself, anything else is what \<^verbatim>\<open>str()\<close>
  makes of it.\<close>

definition fmt :: "host \<Rightarrow> json \<Rightarrow> string" where
  "fmt h v = (case v of JStr s \<Rightarrow> s | _ \<Rightarrow> py_str h v)"

definition main_select :: "args \<Rightarrow> host \<Rightarrow> selection io" where
  "main_select a h =
     io_bind (io_of (case platform a of
                       Some p \<Rightarrow> if p \<noteq> [] then Inr p
                                 else get_platform_id (host_system h) (host_machine h)
                     | None \<Rightarrow> get_platform_id (host_system h) (host_machine h))) (\<lambda>platform_id.
     io_bind (fetch_index h) (\<lambda>index.
     io_bind (io_of (find_latest_stable h index platform_id)) (\<lambda>version_data.
     io_bind (io_of (py_get version_data ''cef_version'' (JStr ''unknown''))) (\<lambda>cef_version.
     io_bind (io_of (get_minimal_dist version_data)) (\<lambda>file_info.
     io_bind (io_of (py_item file_info ''name'')) (\<lambda>filename.
     io_bind (io_of (py_get file_info ''sha1'' (JStr []))) (\<lambda>sha1.
       io_of (Inr \<lparr>sel_platform_id = platform_id, sel_version_data = version_data,
                    sel_cef_version = cef_version, sel_file_info = file_info,
                    sel_filename = filename, sel_sha1 = sha1,
                    sel_url = CEF_DOWNLOAD_BASE @ ''/'' @ fmt h filename\<rparr>))))))))"

text \<open>Lines 119 to 124: the entries of the output directory that match the pattern, the
  first of them reported, and the version written beside it. \<^verbatim>\<open>write_text\<close> refuses a
  value that is not a string before it opens the file.\<close>

definition report :: "args \<Rightarrow> host \<Rightarrow> json \<Rightarrow> unit io" where
  "report a h cef_version =
     (case glob h (output_dir a) ''cef_binary_*'' of
        [] \<Rightarrow> ([], Inr ())
      | p # _ \<Rightarrow>
          io_bind ([PrintReady p], Inr ()) (\<lambda>_.
            case cef_version of
              JStr v \<Rightarrow> ([WriteText (path_join h (output_dir a) ''CEF_VERSION'') v],
                         write_text h (path_join h (output_dir a) ''CEF_VERSION'') v)
            | _ \<Rightarrow> ([], Inl TypeError)))"

definition main :: "args \<Rightarrow> host \<Rightarrow> unit io" where
  "main a h =
     io_bind (main_select a h) (\<lambda>s.
       if info_only a
       then ([PrintJson (JObj [(''cef_version'', sel_cef_version s),
                               (''url'', JStr (sel_url s)),
                               (''sha1'', sel_sha1 s)])], Inr ())
       else
         io_bind ([Mkdir (output_dir a)], mkdir h (output_dir a)) (\<lambda>_.
         io_bind (io_of (case sel_filename s of
                           JStr f \<Rightarrow> Inr (path_join h (output_dir a) f)
                         | _ \<Rightarrow> Inl TypeError)) (\<lambda>archive_path.
         io_bind (if \<not> path_exists h archive_path
                  then download_file h (sel_url s) archive_path
                  else ([PrintCached archive_path], Inr ())) (\<lambda>_.
         io_bind (extract h archive_path (output_dir a)) (\<lambda>_.
           report a h (sel_cef_version s))))))"

text \<open>Lines 108 to 117 of \<^verbatim>\<open>main\<close> on their own: the output directory, the archive
  (downloaded unless a file of that name is there) and its extraction.\<close>

definition main_obtain :: "args \<Rightarrow> host \<Rightarrow> selection \<Rightarrow> unit io" where
  "main_obtain a h s =
     io_bind ([Mkdir (output_dir a)], mkdir h (output_dir a)) (\<lambda>_.
     io_bind (io_of (case sel_filename s of
                       JStr f \<Rightarrow> Inr (path_join h (output_dir a) f)
                     | _ \<Rightarrow> Inl TypeError)) (\<lambda>archive_path.
     io_bind (if \<not> path_exists h archive_path
              then download_file h (sel_url s) archive_path
              else ([PrintCached archive_path], Inr ())) (\<lambda>_.
       extract h archive_path (output_dir a))))"

section \<open>Vocabulary of the properties\<close>

definition is_dict :: "json \<Rightarrow> bool" where
  "is_dict v = (case v of JObj _ \<Rightarrow> True | _ \<Rightarrow> False)"

text \<open>The version list that \<^verbatim>\<open>find_latest_stable\<close> reads for a platform (line 45) and
  the file list that \<^verbatim>\<open>get_minimal_dist\<close> reads in a version entry.\<close>

definition version_list :: "json \<Rightarrow> string \<Rightarrow> error + json list" where
  "version_list index platform_id =
     bind (py_get index platform_id (JObj [])) (\<lambda>plat.
     bind (py_get plat ''versions'' (JArr [])) py_iter)"

definition file_list :: "json \<Rightarrow> error + json list" where
  "file_list version_data = bind (py_get version_data ''files'' (JArr [])) py_iter"

definition is_stable :: "json \<Rightarrow> bool" where
  "is_stable v = (py_get v ''channel'' JNull = Inr (JStr ''stable''))"

definition has_type :: "string \<Rightarrow> json \<Rightarrow> bool" where
  "has_type kind f = (py_get f ''type'' JNull = Inr (JStr kind))"

definition key_ok :: "host \<Rightarrow> json \<Rightarrow> bool" where
  "key_ok h v = (case version_key h v of Inl _ \<Rightarrow> False | Inr _ \<Rightarrow> True)"

definition key_of :: "host \<Rightarrow> json \<Rightarrow> int" where
  "key_of h v = (case version_key h v of Inl _ \<Rightarrow> 0 | Inr k \<Rightarrow> k)"

definition lacks_version :: "json \<Rightarrow> bool" where
  "lacks_version v =
     (case v of JObj kvs \<Rightarrow> map_of kvs ''chromium_version'' = None | _ \<Rightarrow> False)"

section \<open>A host and indexes for concrete runs\<close>

definition entry_119 :: json where
  "entry_119 =
     JObj [(''cef_version'', JStr ''119.4.7''),
           (''channel'', JStr ''stable''),
           (''chromium_version'', JStr ''119.0.6045.199''),
           (''files'', JArr [
              JObj [(''name'', JStr ''cef_binary_119.4.7_linux64.tar.bz2''),
                    (''sha1'', JStr ''0a1b''), (''type'', JStr ''standard'')],
              JObj [(''name'', JStr ''cef_binary_119.4.7_linux64_minimal.tar.bz2''),
                    (''sha1'', JStr ''2c3d''), (''type'', JStr ''minimal'')]])]"

definition entry_120 :: json where
  "entry_120 =
     JObj [(''cef_version'', JStr ''120.2.7''),
           (''channel'', JStr ''stable''),
           (''chromium_version'', JStr ''120.0.6099.234''),
           (''files'', JArr [
              JObj [(''name'', JStr ''cef_binary_120.2.7_linux64.tar.bz2''),
                    (''sha1'', JStr ''4e5f''), (''type'', JStr ''standard'')],
              JObj [(''name'', JStr ''cef_binary_120.2.7_linux64_minimal.tar.bz2''),
                    (''sha1'', JStr ''6a7b''), (''type'', JStr ''minimal'')]])]"

definition entry_120b :: json where
  "entry_120b =
     JObj [(''cef_version'', JStr ''120.1.8''),
           (''channel'', JStr ''stable''),
           (''chromium_version'', JStr ''120.0.6099.109''),
           (''files'', JArr [])]"

definition entry_beta :: json where
  "entry_beta =
     JObj [(''cef_version'', JStr ''121.0.2''),
           (''channel'', JStr ''beta''),
           (''chromium_version'', JStr ''121.0.6167.16''),
           (''files'', JArr [])]"

definition entry_bare :: json where
  "entry_bare = JObj [(''cef_version'', JStr ''1.0''), (''channel'', JStr ''stable'')]"

definition entry_bare2 :: json where
  "entry_bare2 = JObj [(''cef_version'', JStr ''2.0''), (''channel'', JStr ''stable'')]"

definition entry_zip :: json where
  "entry_zip =
     JObj [(''cef_version'', JStr ''120.2.7''),
           (''channel'', JStr ''stable''),
           (''chromium_version'', JStr ''120.0.6099.234''),
           (''files'', JArr [
              JObj [(''name'', JStr ''minimal.zip''),
                    (''sha1'', JStr ''8c9d''), (''type'', JStr ''minimal'')]])]"

definition index_of :: "json list \<Rightarrow> json" where
  "index_of vs = JObj [(''linux64'', JObj [(''versions'', JArr vs)])]"

text \<open>A host of the POSIX flavour, for a relative one-component name joined to a
  directory. It serves the given index, says \<open>present\<close> when asked whether the archive
  exists, lets every call succeed, and lists \<open>listing\<close> for the pattern.\<close>

definition example_host :: "json \<Rightarrow> bool \<Rightarrow> path list \<Rightarrow> host" where
  "example_host index present listing =
     \<lparr>host_system = ''Linux'',
      host_machine = ''x86_64'',
      py_str = (\<lambda>v. ''None''),
      int_unicode = (\<lambda>s. Inl ValueError),
      path_join = (\<lambda>d s. d @ ''/'' @ s),
      path_name = (\<lambda>p. rev (takeWhile (\<lambda>c. c \<noteq> CHR ''/'') (rev p))),
      urlopen_json = (\<lambda>u. if u = CEF_INDEX_URL then Inr index else Inl (HostError ''HTTP 404'')),
      mkdir = (\<lambda>d. Inr ()),
      path_exists = (\<lambda>p. present),
      urlretrieve = (\<lambda>u d. ([(0, 8192, 16384), (1, 8192, 16384), (2, 8192, 16384)], Inr ())),
      tar_extractall = (\<lambda>p d. Inr ()),
      zip_extractall = (\<lambda>p d. Inr ()),
      glob = (\<lambda>d pat. listing),
      write_text = (\<lambda>p s. Inr ())\<rparr>"

definition plain_host :: host where
  "plain_host = example_host JNull False []"

definition example_args :: args where
  "example_args =
     \<lparr>platform = None, output_dir = ''cef_download'', version = None, info_only = False\<rparr>"

definition example_selection :: selection where
  "example_selection =
     \<lparr>sel_platform_id = ''linux64'',
      sel_version_data = entry_120,
      sel_cef_version = JStr ''120.2.7'',
      sel_file_info =
        JObj [(''name'', JStr ''cef_binary_120.2.7_linux64_minimal.tar.bz2''),
              (''sha1'', JStr ''6a7b''), (''type'', JStr ''minimal'')],
      sel_filename = JStr ''cef_binary_120.2.7_linux64_minimal.tar.bz2'',
      sel_sha1 = JStr ''6a7b'',
      sel_url = ''https://cef-builds.spotifycdn.com/cef_binary_120.2.7_linux64_minimal.tar.bz2''\<rparr>"

definition example_listing :: "path list" where
  "example_listing =
     [''cef_download/cef_binary_120.2.7_linux64_minimal'',
      ''cef_download/cef_binary_120.2.7_linux64_minimal.tar.bz2'']"

definition zip_selection :: selection where
  "zip_selection =
     \<lparr>sel_platform_id = ''linux64'',
      sel_version_data = entry_zip,
      sel_cef_version = JStr ''120.2.7'',
      sel_file_info =
        JObj [(''name'', JStr ''minimal.zip''), (''sha1'', JStr ''8c9d''),
              (''type'', JStr ''minimal'')],
      sel_filename = JStr ''minimal.zip'',
      sel_sha1 = JStr ''8c9d'',
      sel_url = ''https://cef-builds.spotifycdn.com/minimal.zip''\<rparr>"

section \<open>Basic facts\<close>

lemma bind_Inr [simp]: "bind (Inr x) f = f x"
  by (simp add: bind_def)

lemma bind_Inl [simp]: "bind (Inl e) f = Inl e"
  by (simp add: bind_def)

lemma bind_eq_Inr: "bind m f = Inr y \<longleftrightarrow> (\<exists>x. m = Inr x \<and> f x = Inr y)"
  by (cases m) simp_all

lemma is_dictE: "is_dict v \<Longrightarrow> (\<And>kvs. v = JObj kvs \<Longrightarrow> thesis) \<Longrightarrow> thesis"
  by (cases v) (simp_all add: is_dict_def)

section \<open>Platform detection: properties\<close>

lemma platform_loop_hit:
  "(plat_id, system, machine) \<in> set tab \<Longrightarrow> distinct (map snd tab) \<Longrightarrow>
   platform_loop tab system machine = Inr plat_id"
proof (induction tab)
  case Nil
  then show ?case by simp
next
  case (Cons row tab)
  obtain p s m where row: "row = (p, s, m)" by (cases row)
  show ?case
  proof (cases "s = system \<and> m = machine")
    case True
    with Cons.prems row have "p = plat_id" by (force simp: image_iff)
    with True row show ?thesis by simp
  next
    case False
    with Cons row show ?thesis by auto
  qed
qed

lemma platform_loop_miss:
  "(system, machine) \<notin> snd ` set tab \<Longrightarrow>
   platform_loop tab system machine =
     Inl (RuntimeError (''Unsupported: '' @ system @ '' '' @ machine))"
  by (induction tab) (auto simp: image_iff)

lemma PLATFORM_MAP_distinct: "distinct (map snd PLATFORM_MAP)"
  by (simp add: PLATFORM_MAP_def)

text \<open>
  Claim C3. For every (system, architecture) pair of the platform table, detection
  returns the identifier the table maps to that pair; for every pair that is not in the
  table it raises the unsupported-platform error.
\<close>

theorem get_platform_id_mapping:
  "((plat_id, system, machine) \<in> set PLATFORM_MAP \<longrightarrow>
      get_platform_id system machine = Inr plat_id) \<and>
   ((system, machine) \<notin> snd ` set PLATFORM_MAP \<longrightarrow>
      get_platform_id system machine =
        Inl (RuntimeError (''Unsupported: '' @ system @ '' '' @ machine)))"
  unfolding get_platform_id_def
  using platform_loop_hit [OF _ PLATFORM_MAP_distinct] platform_loop_miss by blast

theorem get_platform_id_mapping_witness:
  "(''macosarm64'', ''Darwin'', ''arm64'') \<in> set PLATFORM_MAP \<and>
   get_platform_id ''Darwin'' ''arm64'' = Inr ''macosarm64'' \<and>
   (''Linux'', ''riscv64'') \<notin> snd ` set PLATFORM_MAP \<and>
   get_platform_id ''Linux'' ''riscv64'' = Inl (RuntimeError ''Unsupported: Linux riscv64'')"
proof -
  have hit: "(''macosarm64'', ''Darwin'', ''arm64'') \<in> set PLATFORM_MAP"
    by (simp add: PLATFORM_MAP_def)
  have miss: "(''Linux'', ''riscv64'') \<notin> snd ` set PLATFORM_MAP"
    by (simp add: PLATFORM_MAP_def)
  from hit get_platform_id_mapping [of "''macosarm64''" "''Darwin''" "''arm64''"]
  have 1: "get_platform_id ''Darwin'' ''arm64'' = Inr ''macosarm64''" by blast
  from miss get_platform_id_mapping [of "''x''" "''Linux''" "''riscv64''"]
  have 2: "get_platform_id ''Linux'' ''riscv64'' =
             Inl (RuntimeError (''Unsupported: '' @ ''Linux'' @ '' '' @ ''riscv64''))"
    by blast
  from hit miss 1 2 show ?thesis by simp
qed

section \<open>File selection: properties\<close>

lemma first_of_type_find:
  "list_all is_dict fs \<Longrightarrow> first_of_type kind fs = Inr (List.find (has_type kind) fs)"
proof (induction fs)
  case Nil
  then show ?case by simp
next
  case (Cons f fs)
  from Cons.prems obtain kvs where f: "f = JObj kvs"
    by (auto elim: is_dictE)
  with Cons show ?case by (simp add: has_type_def)
qed

text \<open>
  Claim C2. For a version entry whose file list is a sequence of dictionaries,
  \<^verbatim>\<open>get_minimal_dist\<close> returns the first file entry of kind "minimal" when there is one;
  when there is none, the first entry of kind "standard"; and when neither kind is present
  it raises an error.
\<close>

theorem get_minimal_dist_prefers_minimal:
  assumes "file_list version_data = Inr fs" and "list_all is_dict fs"
  shows "get_minimal_dist version_data =
           (case List.find (has_type ''minimal'') fs of
              Some f \<Rightarrow> Inr f
            | None \<Rightarrow>
                (case List.find (has_type ''standard'') fs of
                   Some f \<Rightarrow> Inr f
                 | None \<Rightarrow> Inl (RuntimeError ''No distribution found'')))"
proof -
  from assms(1) obtain files where
    files: "py_get version_data ''files'' (JArr []) = Inr files" "py_iter files = Inr fs"
    by (auto simp: file_list_def bind_eq_Inr)
  show ?thesis
    by (simp add: get_minimal_dist_def files first_of_type_find [OF assms(2)]
             split: option.split)
qed

theorem get_minimal_dist_prefers_minimal_witness:
  "file_list entry_120 =
     Inr [JObj [(''name'', JStr ''cef_binary_120.2.7_linux64.tar.bz2''),
                (''sha1'', JStr ''4e5f''), (''type'', JStr ''standard'')],
          JObj [(''name'', JStr ''cef_binary_120.2.7_linux64_minimal.tar.bz2''),
                (''sha1'', JStr ''6a7b''), (''type'', JStr ''minimal'')]] \<and>
   get_minimal_dist entry_120 =
     Inr (JObj [(''name'', JStr ''cef_binary_120.2.7_linux64_minimal.tar.bz2''),
                (''sha1'', JStr ''6a7b''), (''type'', JStr ''minimal'')])"
proof -
  let ?std = "JObj [(''name'', JStr ''cef_binary_120.2.7_linux64.tar.bz2''),
                    (''sha1'', JStr ''4e5f''), (''type'', JStr ''standard'')]"
  let ?min = "JObj [(''name'', JStr ''cef_binary_120.2.7_linux64_minimal.tar.bz2''),
                    (''sha1'', JStr ''6a7b''), (''type'', JStr ''minimal'')]"
  have fl: "file_list entry_120 = Inr [?std, ?min]"
    by (simp add: file_list_def entry_120_def)
  have dicts: "list_all is_dict [?std, ?min]"
    by (simp add: is_dict_def)
  from get_minimal_dist_prefers_minimal [OF fl dicts]
  have "get_minimal_dist entry_120 = Inr ?min"
    by (simp add: has_type_def)
  with fl show ?thesis by simp
qed

section \<open>Version selection: properties\<close>

lemma find_latest_stable_unfold:
  "find_latest_stable h index platform_id =
     bind (version_list index platform_id) (\<lambda>vs.
     bind (stable_entries vs) (\<lambda>stable.
       if stable = [] then Inl (RuntimeError (''No stable version for '' @ platform_id))
       else bind (map_err (version_key h) stable) (\<lambda>keys.
         case sort_reverse (zip keys stable) of
           [] \<Rightarrow> Inl IndexError
         | (k, v) # _ \<Rightarrow> Inr v)))"
  by (simp add: find_latest_stable_def version_list_def bind_def split: sum.split)

lemma stable_entries_dicts:
  "list_all is_dict vs \<Longrightarrow> stable_entries vs = Inr (filter is_stable vs)"
proof (induction vs)
  case Nil
  then show ?case by simp
next
  case (Cons v vs)
  from Cons.prems obtain kvs where "v = JObj kvs" by (auto elim: is_dictE)
  with Cons show ?case by (simp add: is_stable_def)
qed

lemma stable_entries_Inr:
  "stable_entries vs = Inr st \<Longrightarrow> list_all is_dict vs \<and> st = filter is_stable vs"
proof (induction vs arbitrary: st)
  case Nil
  then show ?case by simp
next
  case (Cons v vs)
  from Cons.prems obtain c rest where
    c: "py_get v ''channel'' JNull = Inr c" and rest: "stable_entries vs = Inr rest"
    and st: "st = (if c = JStr ''stable'' then v # rest else rest)"
    by (auto simp: bind_eq_Inr)
  from c have "is_dict v" by (cases v) (simp_all add: is_dict_def)
  with Cons.IH [OF rest] c st show ?case by (simp add: is_stable_def)
qed

lemma key_ok_version_key: "key_ok h v \<Longrightarrow> version_key h v = Inr (key_of h v)"
  by (simp add: key_ok_def key_of_def split: sum.splits)

lemma version_key_Inr: "version_key h v = Inr k \<Longrightarrow> key_ok h v \<and> key_of h v = k"
  by (simp add: key_ok_def key_of_def)

lemma map_err_keys:
  "list_all (key_ok h) st \<Longrightarrow> map_err (version_key h) st = Inr (map (key_of h) st)"
  by (induction st) (simp_all add: key_ok_version_key)

lemma map_err_Inr:
  "map_err (version_key h) st = Inr ks \<Longrightarrow> list_all (key_ok h) st \<and> ks = map (key_of h) st"
proof (induction st arbitrary: ks)
  case Nil
  then show ?case by simp
next
  case (Cons v st)
  from Cons.prems obtain k ks' where
    "version_key h v = Inr k" "map_err (version_key h) st = Inr ks'" "ks = k # ks'"
    by (auto simp: bind_eq_Inr)
  with Cons.IH [of ks'] show ?case by (simp add: version_key_Inr)
qed

lemma zip_map_key: "zip (map f xs) xs = map (\<lambda>x. (f x, x)) xs"
  by (induction xs) simp_all

text \<open>Head of a stable sort: minimal key, first among the elements of that key.\<close>

lemma sort_key_head:
  assumes "sort_key f zs = y # ys"
  shows "\<exists>pre post. zs = pre @ y # post \<and> (\<forall>u\<in>set pre. f y < f u) \<and> (\<forall>u\<in>set post. f y \<le> f u)"
proof -
  have "sorted (map f (y # ys))"
    using sorted_sort_key [of f zs] assms by simp
  then have le: "\<forall>z\<in>set (y # ys). f y \<le> f z" by auto
  have "set zs = set (y # ys)"
    using set_sort [of f zs] assms by simp
  with le have le': "\<forall>z\<in>set zs. f y \<le> f z" by blast
  have "filter (\<lambda>z. f z = f y) zs = filter (\<lambda>z. f z = f y) (y # ys)"
    using sort_key_stable [of f "f y" zs] assms by simp
  then have "filter (\<lambda>z. f z = f y) zs = y # filter (\<lambda>z. f z = f y) ys" by simp
  then obtain pre post where zs: "zs = pre @ y # post" and pre: "\<forall>u\<in>set pre. f u \<noteq> f y"
    by (auto simp: filter_eq_Cons_iff)
  from le' zs pre have "\<forall>u\<in>set pre. f y < f u" by (auto simp: less_le)
  moreover from le' zs have "\<forall>u\<in>set post. f y \<le> f u" by simp
  ultimately show ?thesis using zs by blast
qed

lemma sort_reverse_head:
  assumes "st \<noteq> []"
  shows "\<exists>pre v post rest. st = pre @ v # post \<and>
           sort_reverse (map (\<lambda>x. (key x, x)) st) = (key v, v) # rest \<and>
           (\<forall>u\<in>set pre. key u < key v) \<and> (\<forall>u\<in>set post. key u \<le> key v)"
proof -
  let ?zs = "map (\<lambda>x. (key x, x)) st"
  let ?f = "\<lambda>kx::int \<times> 'a. - fst kx"
  from assms have "length (sort_key ?f ?zs) \<noteq> 0" by simp
  then obtain y ys where s: "sort_key ?f ?zs = y # ys"
    by (cases "sort_key ?f ?zs") auto
  from sort_key_head [OF s] obtain pre post where
    zs: "?zs = pre @ y # post" and pre: "\<forall>u\<in>set pre. ?f y < ?f u"
    and post: "\<forall>u\<in>set post. ?f y \<le> ?f u" by blast
  from zs obtain pre' v post' where
    st: "st = pre' @ v # post'" and pre': "pre = map (\<lambda>x. (key x, x)) pre'"
    and y: "y = (key v, v)" and post': "post = map (\<lambda>x. (key x, x)) post'"
    by (auto simp: map_eq_append_conv map_eq_Cons_conv)
  from pre pre' y have "\<forall>u\<in>set pre'. key u < key v" by simp
  moreover from post post' y have "\<forall>u\<in>set post'. key u \<le> key v" by simp
  ultimately show ?thesis using st s y by (auto simp: sort_reverse_def)
qed

lemma find_latest_stable_decomp:
  assumes "version_list index platform_id = Inr vs" and "list_all is_dict vs"
    and "filter is_stable vs \<noteq> []" and "list_all (key_ok h) (filter is_stable vs)"
  shows "\<exists>pre v post. filter is_stable vs = pre @ v # post \<and>
           find_latest_stable h index platform_id = Inr v \<and>
           (\<forall>u\<in>set pre. key_of h u < key_of h v) \<and> (\<forall>u\<in>set post. key_of h u \<le> key_of h v)"
proof -
  let ?st = "filter is_stable vs"
  from sort_reverse_head [OF assms(3), of "key_of h"] obtain pre v post rest where
    st: "?st = pre @ v # post"
    and s: "sort_reverse (map (\<lambda>x. (key_of h x, x)) ?st) = (key_of h v, v) # rest"
    and pre: "\<forall>u\<in>set pre. key_of h u < key_of h v" and post: "\<forall>u\<in>set post. key_of h u \<le> key_of h v"
    by blast
  have "find_latest_stable h index platform_id = Inr v"
    using assms(3) s
    by (simp add: find_latest_stable_unfold assms(1) stable_entries_dicts [OF assms(2)]
          map_err_keys [OF assms(4)] zip_map_key)
  with st pre post show ?thesis by blast
qed

lemma find_latest_stable_Inr:
  assumes "find_latest_stable h index platform_id = Inr v"
  shows "\<exists>vs. version_list index platform_id = Inr vs \<and> list_all is_dict vs \<and>
           filter is_stable vs \<noteq> [] \<and> list_all (key_ok h) (filter is_stable vs)"
proof -
  from assms obtain vs st where vs: "version_list index platform_id = Inr vs"
    and st: "stable_entries vs = Inr st"
    and r: "(if st = [] then Inl (RuntimeError (''No stable version for '' @ platform_id))
       else bind (map_err (version_key h) st) (\<lambda>keys.
         case sort_reverse (zip keys st) of
           [] \<Rightarrow> Inl IndexError
         | (k, v) # _ \<Rightarrow> Inr v)) = Inr v"
    unfolding find_latest_stable_unfold bind_eq_Inr by blast
  from r have ne: "st \<noteq> []" by (auto split: if_splits)
  with r obtain ks where "map_err (version_key h) st = Inr ks"
    by (auto simp: bind_eq_Inr)
  with stable_entries_Inr [OF st] map_err_Inr [where st = st and ks = ks] vs ne show ?thesis by auto
qed


lemma filter_eq_appendD:
  "filter P xs = a @ v # b \<Longrightarrow>
   \<exists>pre post. xs = pre @ v # post \<and> filter P pre = a \<and> filter P post = b \<and> P v"
proof (induction a arbitrary: xs)
  case Nil
  then obtain us vs where "xs = us @ v # vs" "\<forall>u\<in>set us. \<not> P u" "P v" "b = filter P vs"
    by (auto simp: filter_eq_Cons_iff)
  then have "xs = us @ v # vs \<and> filter P us = [] \<and> filter P vs = b \<and> P v" by simp
  then show ?case by blast
next
  case (Cons x a)
  from Cons.prems obtain us vs where
    xs: "xs = us @ x # vs" and us: "\<forall>u\<in>set us. \<not> P u" and x: "P x"
    and rest: "a @ v # b = filter P vs"
    by (auto simp: filter_eq_Cons_iff)
  from Cons.IH [OF rest [symmetric]] obtain pre post where
    vs: "vs = pre @ v # post" and "filter P pre = a" "filter P post = b" "P v" by blast
  with xs us x have "xs = (us @ x # pre) @ v # post \<and> filter P (us @ x # pre) = x # a \<and>
    filter P post = b \<and> P v" by simp
  then show ?case by blast
qed

lemma version_key_entry_119: "version_key h entry_119 = Inr 119"
  by (simp add: entry_119_def version_key_def py_int_def int_ascii_def is_ascii_def strip_def is_space_def
        is_digit_def digit_val_def)

lemma version_key_entry_120: "version_key h entry_120 = Inr 120"
  by (simp add: entry_120_def version_key_def py_int_def int_ascii_def is_ascii_def strip_def is_space_def
        is_digit_def digit_val_def)

lemma version_key_entry_120b: "version_key h entry_120b = Inr 120"
  by (simp add: entry_120b_def version_key_def py_int_def int_ascii_def is_ascii_def strip_def is_space_def
        is_digit_def digit_val_def)

lemma is_stable_entries:
  "is_stable entry_119" "is_stable entry_120" "is_stable entry_120b" "\<not> is_stable entry_beta"
  "is_stable entry_bare" "is_stable entry_bare2"
  by (simp_all add: is_stable_def entry_119_def entry_120_def entry_120b_def entry_beta_def
        entry_bare_def entry_bare2_def)

lemma is_dict_entries:
  "is_dict entry_119" "is_dict entry_120" "is_dict entry_120b" "is_dict entry_beta"
  "is_dict entry_bare" "is_dict entry_bare2"
  by (simp_all add: is_dict_def entry_119_def entry_120_def entry_120b_def entry_beta_def
        entry_bare_def entry_bare2_def)

lemma version_list_index_of: "version_list (index_of vs) ''linux64'' = Inr vs"
  by (simp add: version_list_def index_of_def)

text \<open>
  Claim C1. When the version list of the platform is a sequence of dictionaries, has a
  stable entry, and the sort key of every stable entry can be computed,
  \<^verbatim>\<open>find_latest_stable\<close> returns a stable entry of the list whose leading numeric
  component is greater than or equal to that of every stable entry. With two stable
  entries of components 120 and 119 it returns the one of 120 (the witness).
\<close>

theorem find_latest_stable_newest:
  assumes "version_list index platform_id = Inr vs" and "list_all is_dict vs"
    and "filter is_stable vs \<noteq> []" and "list_all (key_ok h) (filter is_stable vs)"
  shows "\<exists>v k. find_latest_stable h index platform_id = Inr v \<and> v \<in> set vs \<and> is_stable v \<and>
           version_key h v = Inr k \<and>
           (\<forall>u\<in>set vs. is_stable u \<longrightarrow> (\<exists>j. version_key h u = Inr j \<and> j \<le> k))"
proof -
  from find_latest_stable_decomp [OF assms] obtain pre v post where
    st: "filter is_stable vs = pre @ v # post"
    and r: "find_latest_stable h index platform_id = Inr v"
    and pre: "\<forall>u\<in>set pre. key_of h u < key_of h v" and post: "\<forall>u\<in>set post. key_of h u \<le> key_of h v"
    by blast
  from st have "v \<in> set (filter is_stable vs)" by simp
  then have v: "v \<in> set vs" "is_stable v" by simp_all
  from assms(4) have ok: "\<forall>u\<in>set (filter is_stable vs). version_key h u = Inr (key_of h u)"
    by (simp add: list_all_iff key_ok_version_key)
  have "\<forall>u\<in>set (filter is_stable vs). key_of h u \<le> key_of h v"
    using pre post by (auto simp: st less_imp_le)
  with ok have "\<forall>u\<in>set vs. is_stable u \<longrightarrow> (\<exists>j. version_key h u = Inr j \<and> j \<le> key_of h v)"
    by simp
  moreover from ok v have "version_key h v = Inr (key_of h v)" by simp
  ultimately show ?thesis using r v by blast
qed

theorem find_latest_stable_newest_witness:
  "version_list (index_of [entry_119, entry_120]) ''linux64'' = Inr [entry_119, entry_120] \<and>
   list_all is_dict [entry_119, entry_120] \<and>
   filter is_stable [entry_119, entry_120] \<noteq> [] \<and>
   list_all (key_ok plain_host) (filter is_stable [entry_119, entry_120]) \<and>
   version_key plain_host entry_120 = Inr 120 \<and> version_key plain_host entry_119 = Inr 119 \<and>
   find_latest_stable plain_host (index_of [entry_119, entry_120]) ''linux64'' = Inr entry_120"
proof -
  let ?vs = "[entry_119, entry_120]"
  have h1: "version_list (index_of ?vs) ''linux64'' = Inr ?vs"
    by (rule version_list_index_of)
  have h2: "list_all is_dict ?vs"
    by (simp add: is_dict_entries)
  have h3: "filter is_stable ?vs \<noteq> []"
    by (simp add: is_stable_entries)
  have h4: "list_all (key_ok plain_host) (filter is_stable ?vs)"
    by (simp add: is_stable_entries key_ok_def version_key_entry_119 version_key_entry_120)
  from find_latest_stable_newest [OF h1 h2 h3 h4] obtain v k where
    r: "find_latest_stable plain_host (index_of ?vs) ''linux64'' = Inr v" and v: "v \<in> set ?vs"
    and k: "version_key plain_host v = Inr k"
    and top: "\<forall>u\<in>set ?vs. is_stable u \<longrightarrow> (\<exists>j. version_key plain_host u = Inr j \<and> j \<le> k)"
    by blast
  from top have "120 \<le> k"
    by (simp add: is_stable_entries version_key_entry_120)
  with v k have "v = entry_120"
    by (auto simp: version_key_entry_119)
  with r h1 h2 h3 h4 show ?thesis
    by (simp only: version_key_entry_119 version_key_entry_120 simp_thms)
qed


text \<open>
  Claim C6. When the version list of the platform has no entry of channel "stable",
  \<^verbatim>\<open>find_latest_stable\<close> raises and returns no entry; when the entries are dictionaries
  the error is the \<^verbatim>\<open>RuntimeError\<close> of line 48.
\<close>

theorem find_latest_stable_no_stable:
  assumes "version_list index platform_id = Inr vs" and "\<forall>v\<in>set vs. \<not> is_stable v"
  shows "(\<exists>e. find_latest_stable h index platform_id = Inl e) \<and>
         (list_all is_dict vs \<longrightarrow>
            find_latest_stable h index platform_id =
              Inl (RuntimeError (''No stable version for '' @ platform_id)))"
proof -
  from assms(2) have none: "filter is_stable vs = []" by (simp add: filter_empty_conv)
  have "\<exists>e. find_latest_stable h index platform_id = Inl e"
  proof (cases "find_latest_stable h index platform_id")
    case (Inl e)
    then show ?thesis by blast
  next
    case (Inr v)
    from find_latest_stable_Inr [OF Inr] assms(1) none show ?thesis by simp
  qed
  moreover have "list_all is_dict vs \<longrightarrow>
      find_latest_stable h index platform_id =
        Inl (RuntimeError (''No stable version for '' @ platform_id))"
    by (simp add: find_latest_stable_unfold assms(1) stable_entries_dicts none)
  ultimately show ?thesis by blast
qed

theorem find_latest_stable_no_stable_witness:
  "version_list (index_of [entry_beta]) ''linux64'' = Inr [entry_beta] \<and>
   \<not> is_stable entry_beta \<and> list_all is_dict [entry_beta] \<and>
   find_latest_stable plain_host (index_of [entry_beta]) ''linux64'' =
     Inl (RuntimeError ''No stable version for linux64'')"
proof -
  have h1: "version_list (index_of [entry_beta]) ''linux64'' = Inr [entry_beta]"
    by (rule version_list_index_of)
  have h2: "\<forall>v\<in>set [entry_beta]. \<not> is_stable v"
    by (simp add: is_stable_entries)
  have h3: "list_all is_dict [entry_beta]"
    by (simp add: is_dict_entries)
  from find_latest_stable_no_stable [OF h1 h2] h3
  have "find_latest_stable plain_host (index_of [entry_beta]) ''linux64'' =
          Inl (RuntimeError (''No stable version for '' @ ''linux64''))"
    by blast
  with h1 h2 h3 show ?thesis by simp
qed

text \<open>
  Claim C9. The entry that \<^verbatim>\<open>find_latest_stable\<close> returns stands at a place of the
  version list before which every stable entry has a strictly smaller leading component,
  and after which none has a greater one: among the stable entries that share the largest
  component it is the first of the list.
\<close>

theorem find_latest_stable_first_among_equal:
  assumes "version_list index platform_id = Inr vs" and "list_all is_dict vs"
    and "filter is_stable vs \<noteq> []" and "list_all (key_ok h) (filter is_stable vs)"
  shows "\<exists>pre v post k. vs = pre @ v # post \<and>
           find_latest_stable h index platform_id = Inr v \<and> is_stable v \<and>
           version_key h v = Inr k \<and>
           (\<forall>u\<in>set pre. is_stable u \<longrightarrow> (\<exists>j. version_key h u = Inr j \<and> j < k)) \<and>
           (\<forall>u\<in>set post. is_stable u \<longrightarrow> (\<exists>j. version_key h u = Inr j \<and> j \<le> k))"
proof -
  from find_latest_stable_decomp [OF assms] obtain a v b where
    st: "filter is_stable vs = a @ v # b"
    and r: "find_latest_stable h index platform_id = Inr v"
    and a: "\<forall>u\<in>set a. key_of h u < key_of h v" and b: "\<forall>u\<in>set b. key_of h u \<le> key_of h v"
    by blast
  from filter_eq_appendD [OF st] obtain pre post where
    vs: "vs = pre @ v # post" and pre: "filter is_stable pre = a"
    and post: "filter is_stable post = b" and v: "is_stable v"
    by blast
  from assms(4) have ok: "\<forall>u\<in>set vs. is_stable u \<longrightarrow> version_key h u = Inr (key_of h u)"
    by (simp add: list_all_iff key_ok_version_key)
  from a pre have "\<forall>u\<in>set pre. is_stable u \<longrightarrow> key_of h u < key_of h v" by auto
  with ok vs have 1: "\<forall>u\<in>set pre. is_stable u \<longrightarrow> (\<exists>j. version_key h u = Inr j \<and> j < key_of h v)"
    by simp
  from b post have "\<forall>u\<in>set post. is_stable u \<longrightarrow> key_of h u \<le> key_of h v" by auto
  with ok vs have 2: "\<forall>u\<in>set post. is_stable u \<longrightarrow> (\<exists>j. version_key h u = Inr j \<and> j \<le> key_of h v)"
    by simp
  from ok vs v have "version_key h v = Inr (key_of h v)" by simp
  with vs r v 1 2 show ?thesis by blast
qed

theorem find_latest_stable_first_among_equal_witness:
  "version_list (index_of [entry_119, entry_120, entry_120b]) ''linux64'' =
     Inr [entry_119, entry_120, entry_120b] \<and>
   list_all is_dict [entry_119, entry_120, entry_120b] \<and>
   filter is_stable [entry_119, entry_120, entry_120b] \<noteq> [] \<and>
   list_all (key_ok plain_host) (filter is_stable [entry_119, entry_120, entry_120b]) \<and>
   version_key plain_host entry_120 = Inr 120 \<and> version_key plain_host entry_120b = Inr 120 \<and>
   find_latest_stable plain_host (index_of [entry_119, entry_120, entry_120b]) ''linux64'' = Inr entry_120"
proof -
  let ?vs = "[entry_119, entry_120, entry_120b]"
  have h1: "version_list (index_of ?vs) ''linux64'' = Inr ?vs"
    by (rule version_list_index_of)
  have h2: "list_all is_dict ?vs"
    by (simp add: is_dict_entries)
  have h3: "filter is_stable ?vs \<noteq> []"
    by (simp add: is_stable_entries)
  have h4: "list_all (key_ok plain_host) (filter is_stable ?vs)"
    by (simp add: is_stable_entries key_ok_def version_key_entry_119 version_key_entry_120
          version_key_entry_120b)
  from find_latest_stable_first_among_equal [OF h1 h2 h3 h4] obtain pre v post k where
    vs: "?vs = pre @ v # post"
    and r: "find_latest_stable plain_host (index_of ?vs) ''linux64'' = Inr v"
    and k: "version_key plain_host v = Inr k"
    and pre: "\<forall>u\<in>set pre. is_stable u \<longrightarrow> (\<exists>j. version_key plain_host u = Inr j \<and> j < k)"
    and post: "\<forall>u\<in>set post. is_stable u \<longrightarrow> (\<exists>j. version_key plain_host u = Inr j \<and> j \<le> k)"
    by blast
  from vs consider
      "pre = []" "v = entry_119" "post = [entry_120, entry_120b]"
    | "pre = [entry_119]" "v = entry_120" "post = [entry_120b]"
    | "pre = [entry_119, entry_120]" "v = entry_120b" "post = []"
    by (auto simp: Cons_eq_append_conv)
  then have "v = entry_120"
  proof cases
    case 1
    with k post show ?thesis
      by (simp add: is_stable_entries version_key_entry_119 version_key_entry_120)
  next
    case 2
    then show ?thesis by simp
  next
    case 3
    with k pre show ?thesis
      by (simp add: is_stable_entries version_key_entry_120 version_key_entry_120b)
  qed
  with r h1 h2 h3 h4 show ?thesis
    by (simp only: version_key_entry_120 version_key_entry_120b simp_thms)
qed

lemma lacks_version_key: "lacks_version v \<Longrightarrow> version_key h v = Inr 0"
  by (cases v)
     (simp_all add: lacks_version_def version_key_def py_int_def int_ascii_def is_ascii_def strip_def is_space_def
        is_digit_def digit_val_def)

text \<open>
  Claim C10. An entry without the field \<^verbatim>\<open>chromium_version\<close> has sort key 0; when such
  an entry is returned, no stable entry of the list has a positive leading component; and
  when every stable entry lacks the field, the first stable entry of the list is returned.
\<close>

theorem missing_chromium_version_is_zero:
  "(lacks_version v \<longrightarrow> version_key h v = Inr 0) \<and>
   (find_latest_stable h index platform_id = Inr v \<and> lacks_version v \<and>
    version_list index platform_id = Inr vs \<and> u \<in> set vs \<and> is_stable u \<longrightarrow>
      (\<exists>j. version_key h u = Inr j \<and> j \<le> 0)) \<and>
   (version_list index platform_id = Inr vs \<and> list_all is_dict vs \<and>
    filter is_stable vs \<noteq> [] \<and> list_all lacks_version (filter is_stable vs) \<longrightarrow>
      find_latest_stable h index platform_id = Inr (hd (filter is_stable vs)))"
proof (intro conjI impI)
  assume "lacks_version v"
  then show "version_key h v = Inr 0" by (rule lacks_version_key)
next
  assume a: "find_latest_stable h index platform_id = Inr v \<and> lacks_version v \<and>
    version_list index platform_id = Inr vs \<and> u \<in> set vs \<and> is_stable u"
  then have r: "find_latest_stable h index platform_id = Inr v" and lv: "lacks_version v"
    and vl: "version_list index platform_id = Inr vs" and u: "u \<in> set vs" "is_stable u"
    by simp_all
  from find_latest_stable_Inr [OF r] vl have
    wf: "list_all is_dict vs" "filter is_stable vs \<noteq> []" "list_all (key_ok h) (filter is_stable vs)"
    by simp_all
  from find_latest_stable_decomp [OF vl wf] r obtain pre post where
    st: "filter is_stable vs = pre @ v # post"
    and pre: "\<forall>w\<in>set pre. key_of h w < key_of h v" and post: "\<forall>w\<in>set post. key_of h w \<le> key_of h v"
    by auto
  from u have "u \<in> set (filter is_stable vs)" by simp
  with st pre post have "key_of h u \<le> key_of h v" by (auto simp: less_imp_le)
  moreover from lacks_version_key [OF lv] have "key_of h v = 0" by (simp add: key_of_def)
  moreover from wf(3) u have "version_key h u = Inr (key_of h u)"
    by (simp add: list_all_iff key_ok_version_key)
  ultimately show "\<exists>j. version_key h u = Inr j \<and> j \<le> 0" by simp
next
  assume a: "version_list index platform_id = Inr vs \<and> list_all is_dict vs \<and>
    filter is_stable vs \<noteq> [] \<and> list_all lacks_version (filter is_stable vs)"
  then have vl: "version_list index platform_id = Inr vs" and d: "list_all is_dict vs"
    and ne: "filter is_stable vs \<noteq> []"
    and lv: "list_all lacks_version (filter is_stable vs)"
    by simp_all
  from lv have zero: "\<forall>w\<in>set (filter is_stable vs). version_key h w = Inr 0"
    by (simp add: list_all_iff lacks_version_key)
  then have ok: "list_all (key_ok h) (filter is_stable vs)"
    by (simp add: list_all_iff key_ok_def)
  from find_latest_stable_decomp [OF vl d ne ok] obtain pre w post where
    st: "filter is_stable vs = pre @ w # post"
    and r: "find_latest_stable h index platform_id = Inr w"
    and pre: "\<forall>x\<in>set pre. key_of h x < key_of h w"
    by blast
  have "pre = []"
  proof (cases pre)
    case Nil
    then show ?thesis .
  next
    case (Cons x xs)
    with st zero have "key_of h x = 0" "key_of h w = 0" by (simp_all add: key_of_def)
    with pre Cons show ?thesis by simp
  qed
  with st r show "find_latest_stable h index platform_id = Inr (hd (filter is_stable vs))"
    by simp
qed

theorem missing_chromium_version_is_zero_witness:
  "lacks_version entry_bare \<and> version_key plain_host entry_bare = Inr 0 \<and>
   version_list (index_of [entry_bare, entry_119]) ''linux64'' = Inr [entry_bare, entry_119] \<and>
   entry_119 \<in> set [entry_bare, entry_119] \<and> is_stable entry_119 \<and>
   find_latest_stable plain_host (index_of [entry_bare, entry_119]) ''linux64'' \<noteq> Inr entry_bare \<and>
   version_list (index_of [entry_beta, entry_bare, entry_bare2]) ''linux64'' =
     Inr [entry_beta, entry_bare, entry_bare2] \<and>
   list_all is_dict [entry_beta, entry_bare, entry_bare2] \<and>
   filter is_stable [entry_beta, entry_bare, entry_bare2] \<noteq> [] \<and>
   list_all lacks_version (filter is_stable [entry_beta, entry_bare, entry_bare2]) \<and>
   find_latest_stable plain_host (index_of [entry_beta, entry_bare, entry_bare2]) ''linux64'' = Inr entry_bare"
proof -
  let ?ws = "[entry_bare, entry_119]"
  let ?vs = "[entry_beta, entry_bare, entry_bare2]"
  have lv: "lacks_version entry_bare" "lacks_version entry_bare2"
    by (simp_all add: lacks_version_def entry_bare_def entry_bare2_def)
  from lv(1) missing_chromium_version_is_zero [where v = entry_bare and h = plain_host]
  have zero: "version_key plain_host entry_bare = Inr 0" by blast
  have w1: "version_list (index_of ?ws) ''linux64'' = Inr ?ws"
    by (rule version_list_index_of)
  have w2: "entry_119 \<in> set ?ws" by simp
  have w3: "is_stable entry_119" by (rule is_stable_entries)
  have never: "find_latest_stable plain_host (index_of ?ws) ''linux64'' \<noteq> Inr entry_bare"
  proof
    assume "find_latest_stable plain_host (index_of ?ws) ''linux64'' = Inr entry_bare"
    with lv(1) w1 w2 w3
      missing_chromium_version_is_zero [where v = entry_bare and h = plain_host
        and index = "index_of ?ws" and platform_id = "''linux64''" and vs = ?ws and u = entry_119]
    have "\<exists>j. version_key plain_host entry_119 = Inr j \<and> j \<le> 0" by blast
    then show False by (simp add: version_key_entry_119)
  qed
  have h1: "version_list (index_of ?vs) ''linux64'' = Inr ?vs"
    by (rule version_list_index_of)
  have h2: "list_all is_dict ?vs"
    by (simp add: is_dict_entries)
  have h3: "filter is_stable ?vs \<noteq> []"
    by (simp add: is_stable_entries)
  have h4: "list_all lacks_version (filter is_stable ?vs)"
    by (simp add: is_stable_entries lv)
  from h1 h2 h3 h4
    missing_chromium_version_is_zero [where h = plain_host and index = "index_of ?vs"
      and platform_id = "''linux64''" and vs = ?vs]
  have "find_latest_stable plain_host (index_of ?vs) ''linux64'' = Inr (hd (filter is_stable ?vs))"
    by blast
  then have "find_latest_stable plain_host (index_of ?vs) ''linux64'' = Inr entry_bare"
    by (simp add: is_stable_entries)
  with lv(1) zero w1 w2 w3 never h1 h2 h3 h4 show ?thesis by blast
qed

section \<open>The program: properties\<close>

lemma io_bind_Inl [simp]: "io_bind (out, Inl e) f = (out, Inl e)"
  by (simp add: io_bind_def)

lemma io_bind_Inr [simp]: "io_bind (out, Inr x) f = (out @ fst (f x), snd (f x))"
  by (simp add: io_bind_def split: prod.split)

lemma io_bind_io_of_Inr [simp]: "io_bind (io_of (Inr x)) f = f x"
  by (simp add: io_of_def)

lemma io_bind_io_of_Inl [simp]: "io_bind (io_of (Inl e)) f = ([], Inl e)"
  by (simp add: io_of_def)

lemma io_bind_assoc: "io_bind (io_bind m f) g = io_bind m (\<lambda>x. io_bind (f x) g)"
proof (cases m)
  case (Pair out r)
  show ?thesis
  proof (cases r)
    case (Inl e)
    with Pair show ?thesis by simp
  next
    case (Inr x)
    obtain out' r' where fx: "f x = (out', r')" by (cases "f x")
    with Pair Inr show ?thesis by (cases r') simp_all
  qed
qed

lemma fst_io_bind:
  "fst (io_bind m f) = fst m @ (case snd m of Inl e \<Rightarrow> [] | Inr x \<Rightarrow> fst (f x))"
  by (cases m; cases "snd m") auto

lemma main_parts:
  "main a h =
     io_bind (main_select a h) (\<lambda>s.
       if info_only a
       then ([PrintJson (JObj [(''cef_version'', sel_cef_version s),
                               (''url'', JStr (sel_url s)),
                               (''sha1'', sel_sha1 s)])], Inr ())
       else io_bind (main_obtain a h s) (\<lambda>_. report a h (sel_cef_version s)))"
  unfolding main_def main_obtain_def by (simp only: io_bind_assoc)

subsection \<open>Strings\<close>

lemma starts_with_iff: "starts_with p s \<longleftrightarrow> (\<exists>r. s = p @ r)"
proof
  assume "starts_with p s"
  then have "s = p @ drop (length p) s"
    by (metis append_take_drop_id starts_with_def)
  then show "\<exists>r. s = p @ r" ..
next
  assume "\<exists>r. s = p @ r"
  then show "starts_with p s" by (auto simp: starts_with_def)
qed

lemma ends_with_iff: "ends_with p s \<longleftrightarrow> (\<exists>r. s = r @ p)"
proof
  assume "ends_with p s"
  then obtain r where "rev s = rev p @ r" by (auto simp: ends_with_def starts_with_iff)
  then have "s = rev r @ p" by (metis rev_append rev_rev_ident)
  then show "\<exists>r. s = r @ p" ..
next
  assume "\<exists>r. s = r @ p"
  then show "ends_with p s" by (auto simp: ends_with_def starts_with_iff)
qed

lemma contains_iff: "contains sub s \<longleftrightarrow> (\<exists>a b. s = a @ sub @ b)"
proof (induction s)
  case Nil
  then show ?case by auto
next
  case (Cons c cs)
  show ?case
  proof
    assume "contains sub (c # cs)"
    then consider "starts_with sub (c # cs)" | "contains sub cs" by auto
    then show "\<exists>a b. c # cs = a @ sub @ b"
    proof cases
      case 1
      then obtain r where "c # cs = [] @ sub @ r" by (auto simp: starts_with_iff)
      then show ?thesis by blast
    next
      case 2
      with Cons.IH obtain a b where "cs = a @ sub @ b" by blast
      then have "c # cs = (c # a) @ sub @ b" by simp
      then show ?thesis by blast
    qed
  next
    assume "\<exists>a b. c # cs = a @ sub @ b"
    then obtain a b where ab: "c # cs = a @ sub @ b" by blast
    show "contains sub (c # cs)"
    proof (cases a)
      case Nil
      with ab have "starts_with sub (c # cs)" by (auto simp: starts_with_iff)
      then show ?thesis by simp
    next
      case (Cons x a')
      with ab have "cs = a' @ sub @ b" by simp
      with Cons.IH have "contains sub cs" by blast
      then show ?thesis by simp
    qed
  qed
qed

lemma ends_with_tar_bz2_contains_tar:
  assumes "ends_with ''.tar.bz2'' n"
  shows "contains ''.tar'' n"
proof -
  from assms obtain r where "n = r @ ''.tar.bz2''" by (auto simp: ends_with_iff)
  then have "n = r @ ''.tar'' @ ''.bz2''" by simp
  then show ?thesis unfolding contains_iff by blast
qed

lemma name_suffix_ends_with: "name_suffix n = s \<Longrightarrow> ends_with s n"
proof -
  assume s: "name_suffix n = s"
  show "ends_with s n"
  proof (cases "0 < rfind CHR ''.'' n \<and> rfind CHR ''.'' n < int (length n) - 1")
    case True
    with s have "s = drop (nat (rfind CHR ''.'' n)) n" by (simp add: name_suffix_def)
    then have "n = take (nat (rfind CHR ''.'' n)) n @ s" by simp
    then show ?thesis unfolding ends_with_iff ..
  next
    case False
    with s have "s = []" by (auto simp: name_suffix_def Let_def)
    then show ?thesis by (simp add: ends_with_iff)
  qed
qed

lemma ends_with_same_length: "ends_with p s \<Longrightarrow> ends_with q s \<Longrightarrow> length p = length q \<Longrightarrow> p = q"
  by (auto simp: ends_with_iff append_eq_append_conv)

lemma zip_name_suffix_not_bz2:
  assumes "ends_with ''.zip'' n"
  shows "name_suffix n \<noteq> ''.bz2''"
proof
  assume "name_suffix n = ''.bz2''"
  then have "ends_with ''.bz2'' n" by (rule name_suffix_ends_with)
  with assms have "''.zip'' = ''.bz2''" by (rule ends_with_same_length) simp
  then show False by simp
qed

text \<open>
  Claim C4, as amended. \<^verbatim>\<open>extract\<close> hands the archive to tar with bzip2 exactly when the
  suffix of the path is ".bz2" or its name contains ".tar", and to zip otherwise. A name
  that ends in ".tar.bz2" always goes to tar with bzip2; a name that ends in ".zip" goes to
  zip when it does not contain ".tar".
\<close>

theorem extract_dispatch:
  "extract h archive_path dest_dir =
     (if path_suffix h archive_path = ''.bz2'' \<or> contains ''.tar'' (path_name h archive_path)
      then ([PrintExtracting dest_dir, TarExtractAll archive_path dest_dir],
            tar_extractall h archive_path dest_dir)
      else ([PrintExtracting dest_dir, ZipExtractAll archive_path dest_dir],
            zip_extractall h archive_path dest_dir)) \<and>
   (ends_with ''.tar.bz2'' (path_name h archive_path) \<longrightarrow>
      extract h archive_path dest_dir =
        ([PrintExtracting dest_dir, TarExtractAll archive_path dest_dir],
         tar_extractall h archive_path dest_dir)) \<and>
   (ends_with ''.zip'' (path_name h archive_path) \<and>
    \<not> contains ''.tar'' (path_name h archive_path) \<longrightarrow>
      extract h archive_path dest_dir =
        ([PrintExtracting dest_dir, ZipExtractAll archive_path dest_dir],
         zip_extractall h archive_path dest_dir))"
  by (simp add: extract_def path_suffix_def ends_with_tar_bz2_contains_tar
        zip_name_suffix_not_bz2)


lemmas host_simps = example_host_def example_args_def

lemmas select_simps = main_select_def fetch_index_def io_of_def
  get_platform_id_def PLATFORM_MAP_def find_latest_stable_def get_minimal_dist_def
  version_key_def py_int_def int_ascii_def is_ascii_def strip_def is_space_def is_digit_def digit_val_def sort_reverse_def
  index_of_def entry_zip_def entry_119_def entry_120_def fmt_def CEF_DOWNLOAD_BASE_def
  CEF_INDEX_URL_def

lemmas obtain_simps = main_obtain_def extract_def download_file_def progress_def io_of_def
  path_suffix_def name_suffix_def rfind_def starts_with_def ends_with_def

lemma example_main_select:
  "main_select example_args (example_host (index_of [entry_119, entry_120]) present listing) =
     ([PrintFetching, UrlOpen CEF_INDEX_URL], Inr example_selection)"
  by (simp add: host_simps select_simps example_selection_def)

theorem extract_dispatch_witness:
  "ends_with ''.tar.bz2''
     (path_name (example_host (index_of []) False [])
        ''cef_download/cef_binary_120.2.7_linux64_minimal.tar.bz2'') \<and>
   extract (example_host (index_of []) False [])
     ''cef_download/cef_binary_120.2.7_linux64_minimal.tar.bz2'' ''cef_download'' =
     ([PrintExtracting ''cef_download'',
       TarExtractAll ''cef_download/cef_binary_120.2.7_linux64_minimal.tar.bz2'' ''cef_download''],
      Inr ()) \<and>
   ends_with ''.zip'' (path_name (example_host (index_of []) False []) ''cef_download/minimal.zip'') \<and>
   \<not> contains ''.tar'' (path_name (example_host (index_of []) False []) ''cef_download/minimal.zip'') \<and>
   extract (example_host (index_of []) False []) ''cef_download/minimal.zip'' ''cef_download'' =
     ([PrintExtracting ''cef_download'',
       ZipExtractAll ''cef_download/minimal.zip'' ''cef_download''], Inr ())"
proof -
  let ?H = "example_host (index_of []) False []"
  let ?p = "''cef_download/cef_binary_120.2.7_linux64_minimal.tar.bz2''"
  let ?q = "''cef_download/minimal.zip''"
  let ?d = "''cef_download''"
  have t: "ends_with ''.tar.bz2'' (path_name ?H ?p)"
    by (simp add: example_host_def ends_with_def starts_with_def)
  have z: "ends_with ''.zip'' (path_name ?H ?q)"
    by (simp add: example_host_def ends_with_def starts_with_def)
  have n: "\<not> contains ''.tar'' (path_name ?H ?q)"
    by (simp add: example_host_def starts_with_def)
  from t extract_dispatch [of ?H ?p ?d]
  have "extract ?H ?p ?d = ([PrintExtracting ?d, TarExtractAll ?p ?d], tar_extractall ?H ?p ?d)"
    by blast
  then have 1: "extract ?H ?p ?d = ([PrintExtracting ?d, TarExtractAll ?p ?d], Inr ())"
    by (simp add: example_host_def)
  from z n extract_dispatch [of ?H ?q ?d]
  have "extract ?H ?q ?d = ([PrintExtracting ?d, ZipExtractAll ?q ?d], zip_extractall ?H ?q ?d)"
    by blast
  then have 2: "extract ?H ?q ?d = ([PrintExtracting ?d, ZipExtractAll ?q ?d], Inr ())"
    by (simp add: example_host_def)
  from t z n 1 2 show ?thesis by blast
qed

text \<open>The name \<^verbatim>\<open>a.tar.zip\<close> has the suffix ".zip" and is handed to tar with bzip2.\<close>

theorem extract_zip_suffix_counterexample:
  "ends_with ''.zip'' (path_name (example_host (index_of []) True []) ''cef_download/a.tar.zip'') \<and>
   path_suffix (example_host (index_of []) True []) ''cef_download/a.tar.zip'' = ''.zip'' \<and>
   extract (example_host (index_of []) True []) ''cef_download/a.tar.zip'' ''cef_download'' =
     ([PrintExtracting ''cef_download'',
       TarExtractAll ''cef_download/a.tar.zip'' ''cef_download''], Inr ())"
  by (simp add: example_host_def extract_def path_suffix_def name_suffix_def rfind_def
        ends_with_def starts_with_def)

text \<open>
  Claim C8. Two runs that differ only in the value of \<^verbatim>\<open>--version\<close> resolve the same
  platform, version entry and file entry, and have the same events and the same outcome.
\<close>

theorem version_flag_unused:
  "main_select (a\<lparr>version := v\<rparr>) h = main_select (a\<lparr>version := w\<rparr>) h \<and>
   main (a\<lparr>version := v\<rparr>) h = main (a\<lparr>version := w\<rparr>) h"
proof -
  have sel: "main_select (a\<lparr>version := x\<rparr>) h = main_select a h" for x
    by (simp add: main_select_def)
  have "main (a\<lparr>version := x\<rparr>) h = main a h" for x
    by (simp add: main_def sel report_def cong: if_cong json.case_cong list.case_cong)
  with sel show ?thesis by simp
qed

theorem version_flag_unused_witness:
  "main (example_args\<lparr>version := Some ''119.4.7''\<rparr>)
        (example_host (index_of [entry_119, entry_120]) True example_listing) =
   main (example_args\<lparr>version := None\<rparr>)
        (example_host (index_of [entry_119, entry_120]) True example_listing)"
  using version_flag_unused [where a = example_args and v = "Some ''119.4.7''" and w = None
          and h = "example_host (index_of [entry_119, entry_120]) True example_listing"]
  by (rule conjunct2)

lemma events_io_bind:
  assumes "set (fst m) \<subseteq> S" and "\<And>x. set (fst (f x)) \<subseteq> S"
  shows "set (fst (io_bind m f)) \<subseteq> S"
  using assms by (auto simp: fst_io_bind split: sum.splits)

lemma events_extract:
  "set (fst (extract h p d)) \<subseteq> {e. \<forall>u t. e \<noteq> UrlRetrieve u t}"
  by (simp add: extract_def)

lemma events_report:
  "set (fst (report a h v)) \<subseteq> {e. \<forall>u t. e \<noteq> UrlRetrieve u t}"
  by (auto simp: report_def split: list.splits json.splits)

lemma events_main_select:
  "set (fst (main_select a h)) \<subseteq> {e. \<forall>u t. e \<noteq> UrlRetrieve u t}"
  unfolding main_select_def
  by (intro events_io_bind) (simp_all add: io_of_def fetch_index_def)

lemma main_obtain_cached:
  assumes "sel_filename s = JStr f" and "path_exists h (path_join h (output_dir a) f)"
  shows "main_obtain a h s =
           io_bind ([Mkdir (output_dir a)], mkdir h (output_dir a)) (\<lambda>_.
           io_bind ([PrintCached (path_join h (output_dir a) f)], Inr ()) (\<lambda>_.
             extract h (path_join h (output_dir a) f) (output_dir a)))"
  using assms by (simp add: main_obtain_def)

text \<open>
  Claim C7. In a run whose selected archive is found in the output directory, no transfer
  of the archive is issued; when the run is not info-only and the output directory is
  there, the run says that it uses the cached file and extracts that file.
\<close>

theorem cached_archive_skips_download:
  assumes "main_select a h = (out, Inr s)" and "sel_filename s = JStr f"
    and "path_exists h (path_join h (output_dir a) f)"
  shows "(\<forall>url dest. UrlRetrieve url dest \<notin> set (fst (main a h))) \<and>
         (\<not> info_only a \<and> mkdir h (output_dir a) = Inr () \<longrightarrow>
            (\<exists>rest. fst (main a h) =
               out @ [Mkdir (output_dir a), PrintCached (path_join h (output_dir a) f)]
                   @ fst (extract h (path_join h (output_dir a) f) (output_dir a)) @ rest))"
proof
  let ?S = "{e. \<forall>u t. e \<noteq> UrlRetrieve u t}"
  have "set (fst (main_obtain a h s)) \<subseteq> ?S"
    unfolding main_obtain_cached [OF assms(2,3)]
    by (intro events_io_bind events_extract) simp_all
  then have "set (fst (io_bind (main_obtain a h s) (\<lambda>_. report a h (sel_cef_version s)))) \<subseteq> ?S"
    by (rule events_io_bind) (rule events_report)
  moreover from events_main_select [of a h] assms(1) have "set out \<subseteq> ?S" by simp
  ultimately have "set (fst (main a h)) \<subseteq> ?S"
    by (simp add: main_parts assms(1))
  then show "\<forall>url dest. UrlRetrieve url dest \<notin> set (fst (main a h))" by blast
next
  show "\<not> info_only a \<and> mkdir h (output_dir a) = Inr () \<longrightarrow>
      (\<exists>rest. fst (main a h) =
         out @ [Mkdir (output_dir a), PrintCached (path_join h (output_dir a) f)]
             @ fst (extract h (path_join h (output_dir a) f) (output_dir a)) @ rest)"
    by (simp add: main_parts assms(1) main_obtain_cached [OF assms(2,3)] fst_io_bind)
qed

lemma main_report_none:
  assumes "main_select a h = (out1, Inr s)" and "\<not> info_only a"
    and "main_obtain a h s = (out2, Inr ())"
  and "glob h (output_dir a) ''cef_binary_*'' = []"
  shows "main a h = (out1 @ out2, Inr ())"
  using assms(4) by (simp add: main_parts assms(1-3) report_def)

lemma main_report_some:
  assumes "main_select a h = (out1, Inr s)" and "\<not> info_only a"
    and "main_obtain a h s = (out2, Inr ())"
  and "glob h (output_dir a) ''cef_binary_*'' = p # ps"
    and "sel_cef_version s = JStr v"
  shows "main a h =
      (out1 @ out2 @ [PrintReady p, WriteText (path_join h (output_dir a) ''CEF_VERSION'') v],
       write_text h (path_join h (output_dir a) ''CEF_VERSION'') v)"
  using assms(4,5) by (simp add: main_parts assms(1-3) report_def)



text \<open>
  Claim C5, as amended. After a run that is not info-only and has obtained and extracted
  the archive: when no entry of the output directory matches \<^verbatim>\<open>cef_binary_*\<close> the run
  ends there, with no ready line printed and no marker written; when an entry matches, the
  run prints its ready line and writes the resolved version string to \<^verbatim>\<open>CEF_VERSION\<close> in
  the output directory, the outcome of the run being that of the write. Which path the
  ready line names is not part of the statement.
\<close>

theorem report_after_extraction:
  assumes "main_select a h = (out1, Inr s)" and "\<not> info_only a"
    and "main_obtain a h s = (out2, Inr ())"
  shows "(glob h (output_dir a) ''cef_binary_*'' = [] \<longrightarrow> main a h = (out1 @ out2, Inr ())) \<and>
         (glob h (output_dir a) ''cef_binary_*'' \<noteq> [] \<and> sel_cef_version s = JStr v \<longrightarrow>
            (\<exists>p. main a h =
               (out1 @ out2 @ [PrintReady p,
                               WriteText (path_join h (output_dir a) ''CEF_VERSION'') v],
                write_text h (path_join h (output_dir a) ''CEF_VERSION'') v)))"
proof (intro conjI impI)
  assume "glob h (output_dir a) ''cef_binary_*'' = []"
  with assms show "main a h = (out1 @ out2, Inr ())"
    by (rule main_report_none)
next
  let ?found = "glob h (output_dir a) ''cef_binary_*''"
  assume both: "?found \<noteq> [] \<and> sel_cef_version s = JStr v"
  from both have ne: "?found \<noteq> []" ..
  from both have v: "sel_cef_version s = JStr v" ..
  from ne have "?found = hd ?found # tl ?found"
    by (rule hd_Cons_tl [symmetric])
  from main_report_some [OF assms this v]
  show "\<exists>p. main a h =
      (out1 @ out2 @ [PrintReady p, WriteText (path_join h (output_dir a) ''CEF_VERSION'') v],
       write_text h (path_join h (output_dir a) ''CEF_VERSION'') v)"
    by (rule exI [where x = "hd ?found"])
qed


lemma zip_main_select:
  "main_select example_args (example_host (index_of [entry_zip]) present listing) =
     ([PrintFetching, UrlOpen CEF_INDEX_URL], Inr zip_selection)"
  by (simp add: host_simps select_simps zip_selection_def)

lemma example_main_obtain_download:
  "main_obtain example_args (example_host index False listing) example_selection =
     ([Mkdir ''cef_download'',
       PrintDownloading ''https://cef-builds.spotifycdn.com/cef_binary_120.2.7_linux64_minimal.tar.bz2'',
       UrlRetrieve ''https://cef-builds.spotifycdn.com/cef_binary_120.2.7_linux64_minimal.tar.bz2''
         ''cef_download/cef_binary_120.2.7_linux64_minimal.tar.bz2'',
       PrintProgress 0, PrintProgress 50, PrintProgress 100, PrintNewline,
       PrintExtracting ''cef_download'',
       TarExtractAll ''cef_download/cef_binary_120.2.7_linux64_minimal.tar.bz2'' ''cef_download''],
      Inr ())"
  by (simp add: host_simps obtain_simps example_selection_def)

lemma zip_main_obtain_download:
  "main_obtain example_args (example_host index False listing) zip_selection =
     ([Mkdir ''cef_download'',
       PrintDownloading ''https://cef-builds.spotifycdn.com/minimal.zip'',
       UrlRetrieve ''https://cef-builds.spotifycdn.com/minimal.zip'' ''cef_download/minimal.zip'',
       PrintProgress 0, PrintProgress 50, PrintProgress 100, PrintNewline,
       PrintExtracting ''cef_download'',
       ZipExtractAll ''cef_download/minimal.zip'' ''cef_download''],
      Inr ())"
  by (simp add: host_simps obtain_simps zip_selection_def)

theorem cached_archive_skips_download_witness:
  "main_select example_args (example_host (index_of [entry_119, entry_120]) True example_listing) =
     ([PrintFetching, UrlOpen CEF_INDEX_URL], Inr example_selection) \<and>
   sel_filename example_selection = JStr ''cef_binary_120.2.7_linux64_minimal.tar.bz2'' \<and>
   path_exists (example_host (index_of [entry_119, entry_120]) True example_listing)
     ''cef_download/cef_binary_120.2.7_linux64_minimal.tar.bz2'' \<and>
   \<not> info_only example_args \<and>
   UrlRetrieve ''https://cef-builds.spotifycdn.com/cef_binary_120.2.7_linux64_minimal.tar.bz2''
     ''cef_download/cef_binary_120.2.7_linux64_minimal.tar.bz2'' \<notin>
     set (fst (main example_args
                 (example_host (index_of [entry_119, entry_120]) True example_listing))) \<and>
   take 6 (fst (main example_args
                  (example_host (index_of [entry_119, entry_120]) True example_listing))) =
      [PrintFetching, UrlOpen CEF_INDEX_URL, Mkdir ''cef_download'',
       PrintCached ''cef_download/cef_binary_120.2.7_linux64_minimal.tar.bz2'',
       PrintExtracting ''cef_download'',
       TarExtractAll ''cef_download/cef_binary_120.2.7_linux64_minimal.tar.bz2''
         ''cef_download'']"
proof -
  let ?H = "example_host (index_of [entry_119, entry_120]) True example_listing"
  let ?f = "''cef_binary_120.2.7_linux64_minimal.tar.bz2''"
  have h1: "main_select example_args ?H =
              ([PrintFetching, UrlOpen CEF_INDEX_URL], Inr example_selection)"
    by (rule example_main_select)
  have h2: "sel_filename example_selection = JStr ?f"
    by (simp add: example_selection_def)
  have h3: "path_exists ?H (path_join ?H (output_dir example_args) ?f)"
    by (simp add: host_simps)
  have h4: "\<not> info_only example_args" "mkdir ?H (output_dir example_args) = Inr ()"
    by (simp_all add: host_simps)
  note c = cached_archive_skips_download [OF h1 h2 h3]
  from c have none: "\<forall>url dest. UrlRetrieve url dest \<notin> set (fst (main example_args ?H))"
    by blast
  from c h4 obtain rest where
    "fst (main example_args ?H) =
       [PrintFetching, UrlOpen CEF_INDEX_URL]
         @ [Mkdir (output_dir example_args),
            PrintCached (path_join ?H (output_dir example_args) ?f)]
         @ fst (extract ?H (path_join ?H (output_dir example_args) ?f) (output_dir example_args))
         @ rest"
    by blast
  then have "fst (main example_args ?H) =
      [PrintFetching, UrlOpen CEF_INDEX_URL, Mkdir ''cef_download'',
       PrintCached ''cef_download/cef_binary_120.2.7_linux64_minimal.tar.bz2'',
       PrintExtracting ''cef_download'',
       TarExtractAll ''cef_download/cef_binary_120.2.7_linux64_minimal.tar.bz2''
         ''cef_download''] @ rest"
    by (simp add: host_simps extract_def path_suffix_def name_suffix_def rfind_def)
  then have "take 6 (fst (main example_args ?H)) =
      [PrintFetching, UrlOpen CEF_INDEX_URL, Mkdir ''cef_download'',
       PrintCached ''cef_download/cef_binary_120.2.7_linux64_minimal.tar.bz2'',
       PrintExtracting ''cef_download'',
       TarExtractAll ''cef_download/cef_binary_120.2.7_linux64_minimal.tar.bz2''
         ''cef_download'']"
    by simp
  moreover from h3 have "path_exists ?H ''cef_download/cef_binary_120.2.7_linux64_minimal.tar.bz2''"
    by (simp add: host_simps)
  ultimately show ?thesis using h1 h2 h4(1) none by blast
qed

theorem report_after_extraction_witness:
  "main_select example_args (example_host (index_of [entry_119, entry_120]) False example_listing) =
     ([PrintFetching, UrlOpen CEF_INDEX_URL], Inr example_selection) \<and>
   \<not> info_only example_args \<and>
   snd (main_obtain example_args
          (example_host (index_of [entry_119, entry_120]) False example_listing)
          example_selection) = Inr () \<and>
   glob (example_host (index_of [entry_119, entry_120]) False example_listing)
     (output_dir example_args) ''cef_binary_*'' \<noteq> [] \<and>
   sel_cef_version example_selection = JStr ''120.2.7'' \<and>
   last (fst (main example_args
                (example_host (index_of [entry_119, entry_120]) False example_listing))) =
     WriteText ''cef_download/CEF_VERSION'' ''120.2.7'' \<and>
   snd (main example_args
          (example_host (index_of [entry_119, entry_120]) False example_listing)) = Inr () \<and>
   main_select example_args (example_host (index_of [entry_zip]) False []) =
     ([PrintFetching, UrlOpen CEF_INDEX_URL], Inr zip_selection) \<and>
   snd (main_obtain example_args (example_host (index_of [entry_zip]) False []) zip_selection) =
     Inr () \<and>
   glob (example_host (index_of [entry_zip]) False []) (output_dir example_args)
     ''cef_binary_*'' = [] \<and>
   main example_args (example_host (index_of [entry_zip]) False []) =
     ([PrintFetching, UrlOpen CEF_INDEX_URL, Mkdir ''cef_download'',
       PrintDownloading ''https://cef-builds.spotifycdn.com/minimal.zip'',
       UrlRetrieve ''https://cef-builds.spotifycdn.com/minimal.zip'' ''cef_download/minimal.zip'',
       PrintProgress 0, PrintProgress 50, PrintProgress 100, PrintNewline,
       PrintExtracting ''cef_download'',
       ZipExtractAll ''cef_download/minimal.zip'' ''cef_download''],
      Inr ())"
proof -
  let ?H = "example_host (index_of [entry_119, entry_120]) False example_listing"
  let ?Z = "example_host (index_of [entry_zip]) False []"
  have h1: "main_select example_args ?H =
              ([PrintFetching, UrlOpen CEF_INDEX_URL], Inr example_selection)"
    by (rule example_main_select)
  have h2: "\<not> info_only example_args"
    by (simp add: host_simps)
  note h3 = example_main_obtain_download [of "index_of [entry_119, entry_120]" example_listing]
  have g: "glob ?H (output_dir example_args) ''cef_binary_*'' \<noteq> []"
    by (simp add: host_simps example_listing_def)
  have v: "sel_cef_version example_selection = JStr ''120.2.7''"
    by (simp add: example_selection_def)
  from g v report_after_extraction [OF h1 h2 h3] obtain p where
    m: "main example_args ?H =
      ([PrintFetching, UrlOpen CEF_INDEX_URL] @
       [Mkdir ''cef_download'',
        PrintDownloading ''https://cef-builds.spotifycdn.com/cef_binary_120.2.7_linux64_minimal.tar.bz2'',
        UrlRetrieve ''https://cef-builds.spotifycdn.com/cef_binary_120.2.7_linux64_minimal.tar.bz2''
          ''cef_download/cef_binary_120.2.7_linux64_minimal.tar.bz2'',
        PrintProgress 0, PrintProgress 50, PrintProgress 100, PrintNewline,
        PrintExtracting ''cef_download'',
        TarExtractAll ''cef_download/cef_binary_120.2.7_linux64_minimal.tar.bz2'' ''cef_download''] @
       [PrintReady p,
        WriteText (path_join ?H (output_dir example_args) ''CEF_VERSION'') ''120.2.7''],
       write_text ?H (path_join ?H (output_dir example_args) ''CEF_VERSION'') ''120.2.7'')"
    by blast
  from m have m1: "last (fst (main example_args ?H)) =
      WriteText ''cef_download/CEF_VERSION'' ''120.2.7''"
    by (simp add: host_simps)
  from m have m1': "snd (main example_args ?H) = Inr ()"
    by (simp add: host_simps)
  have z1: "main_select example_args ?Z = ([PrintFetching, UrlOpen CEF_INDEX_URL], Inr zip_selection)"
    by (rule zip_main_select)
  note z3 = zip_main_obtain_download [of "index_of [entry_zip]" "[]"]
  have zg: "glob ?Z (output_dir example_args) ''cef_binary_*'' = []"
    by (simp add: host_simps)
  from zg report_after_extraction [OF z1 h2 z3]
  have "main example_args ?Z =
      ([PrintFetching, UrlOpen CEF_INDEX_URL] @
       [Mkdir ''cef_download'',
        PrintDownloading ''https://cef-builds.spotifycdn.com/minimal.zip'',
        UrlRetrieve ''https://cef-builds.spotifycdn.com/minimal.zip'' ''cef_download/minimal.zip'',
        PrintProgress 0, PrintProgress 50, PrintProgress 100, PrintNewline,
        PrintExtracting ''cef_download'',
        ZipExtractAll ''cef_download/minimal.zip'' ''cef_download''], Inr ())"
    by blast
  then have m2: "main example_args ?Z =
     ([PrintFetching, UrlOpen CEF_INDEX_URL, Mkdir ''cef_download'',
       PrintDownloading ''https://cef-builds.spotifycdn.com/minimal.zip'',
       UrlRetrieve ''https://cef-builds.spotifycdn.com/minimal.zip'' ''cef_download/minimal.zip'',
       PrintProgress 0, PrintProgress 50, PrintProgress 100, PrintNewline,
       PrintExtracting ''cef_download'',
       ZipExtractAll ''cef_download/minimal.zip'' ''cef_download''],
      Inr ())"
    by simp
  from h3 have o1: "snd (main_obtain example_args ?H example_selection) = Inr ()" by simp
  from z3 have o2: "snd (main_obtain example_args ?Z zip_selection) = Inr ()" by simp
  show ?thesis
    by (intro conjI h1 h2 o1 g v m1 m1' z1 o2 zg m2)
qed

text \<open>A run that downloads and extracts an archive, finds no entry matching the pattern,
  and ends without a report and without the marker.\<close>

theorem marker_not_written_counterexample:
  "\<not> info_only example_args \<and>
   main example_args (example_host (index_of [entry_zip]) False []) =
     ([PrintFetching, UrlOpen CEF_INDEX_URL, Mkdir ''cef_download'',
       PrintDownloading ''https://cef-builds.spotifycdn.com/minimal.zip'',
       UrlRetrieve ''https://cef-builds.spotifycdn.com/minimal.zip'' ''cef_download/minimal.zip'',
       PrintProgress 0, PrintProgress 50, PrintProgress 100, PrintNewline,
       PrintExtracting ''cef_download'',
       ZipExtractAll ''cef_download/minimal.zip'' ''cef_download''],
      Inr ())"
proof -
  let ?Z = "example_host (index_of [entry_zip]) False []"
  have a: "\<not> info_only example_args"
    by (simp add: host_simps)
  have g: "glob ?Z (output_dir example_args) ''cef_binary_*'' = []"
    by (simp add: host_simps)
  have "main example_args ?Z =
     ([PrintFetching, UrlOpen CEF_INDEX_URL, Mkdir ''cef_download'',
       PrintDownloading ''https://cef-builds.spotifycdn.com/minimal.zip'',
       UrlRetrieve ''https://cef-builds.spotifycdn.com/minimal.zip'' ''cef_download/minimal.zip'',
       PrintProgress 0, PrintProgress 50, PrintProgress 100, PrintNewline,
       PrintExtracting ''cef_download'',
       ZipExtractAll ''cef_download/minimal.zip'' ''cef_download''],
      Inr ())"
    by (simp add: main_parts zip_main_select zip_main_obtain_download report_def a g)
  with a show ?thesis by simp
qed

end
